theory Spec2Isabelle
  imports Main
begin

section \<open>Count sketch: the three implementations of the notebook\<close>

text \<open>
  The notebook gives three implementations of the count sketch of a matrix
  \<open>A\<close> with \<open>m\<close> rows and \<open>n\<close> columns: \<open>countSketchInMemroy\<close>,
  \<open>countSketchStreaming\<close> and \<open>countSketchMapReduce\<close>.

  Conventions of the embedding.
  \<^item> A two-dimensional NumPy array is a record of its shape and its rows.
  \<^item> The entries are elements of an arbitrary commutative ring: sums and products
    are exact. The arrays of the notebook hold binary floating-point numbers, whose
    sums are rounded and depend on the order of summation; that is not part of the
    model. The theorems that settle a claim below are therefore about shapes, about
    which array is written, about index ranges and about sums taken in the order in
    which the code adds, or they evaluate the code on small integers, on which its
    arithmetic is exact.
  \<^item> The random draws are explicit. A call \<open>np.random.choice(a, n, replace=True)\<close>
    is a function \<open>choice\<close> from positions to drawn values, and the array it
    returns is \<open>map choice [0..<n]\<close>. What NumPy guarantees about the drawn
    values (each lies in \<open>range(a)\<close>) is the predicate \<open>draws_below\<close>. The
    calls return for \<open>a > 0\<close>; the theorems assume \<open>0 < s\<close>.
  \<^item> Arrays live in a store (a list of arrays, addressed by position), because
    the notebook updates \<open>matrixC\<close> in place and reads \<open>matrixA\<close> through views.
\<close>

subsection \<open>Arrays\<close>

record 'a ndarray =
  nrows :: nat
  ncols :: nat
  rows :: "'a list list"

definition wf_ndarray :: "'a ndarray \<Rightarrow> bool" where
  "wf_ndarray A \<longleftrightarrow>
     length (rows A) = nrows A \<and> list_all (\<lambda>r. length r = ncols A) (rows A)"

definition entry :: "'a ndarray \<Rightarrow> nat \<Rightarrow> nat \<Rightarrow> 'a" where
  "entry A i j = rows A ! i ! j"

text \<open>\<open>matrixA.shape\<close>\<close>

definition shape :: "'a ndarray \<Rightarrow> nat \<times> nat" where
  "shape A = (nrows A, ncols A)"

text \<open>\<open>np.zeros([m, s])\<close>\<close>

definition zeros :: "nat \<Rightarrow> nat \<Rightarrow> ('a::zero) ndarray" where
  "zeros m s = \<lparr>nrows = m, ncols = s, rows = replicate m (replicate s 0)\<rparr>"

text \<open>\<open>matrixA * randSigns.reshape(1, n)\<close>: a new array, every row multiplied
  entry by entry with the row of signs.\<close>

definition times_row :: "('a::comm_ring_1) ndarray \<Rightarrow> int list \<Rightarrow> 'a ndarray" where
  "times_row A g = A\<lparr>rows := map (\<lambda>r. map2 (\<lambda>x y. x * of_int y) r g) (rows A)\<rparr>"

text \<open>\<open>r[idx]\<close> for a boolean mask \<open>idx\<close>: the entries at the positions where the
  mask is true, in order.\<close>

definition select :: "'a list \<Rightarrow> bool list \<Rightarrow> 'a list" where
  "select r idx = map fst (filter snd (zip r idx))"

text \<open>\<open>matrixA[:, idx]\<close> for a boolean mask \<open>idx\<close>: a new array of the selected columns.\<close>

definition take_columns :: "'a ndarray \<Rightarrow> bool list \<Rightarrow> 'a ndarray" where
  "take_columns A idx =
     \<lparr>nrows = nrows A, ncols = length (filter id idx),
      rows = map (\<lambda>r. select r idx) (rows A)\<rparr>"

text \<open>\<open>np.sum(B, 1)\<close>: the vector of the sums of the rows, as exact sums.\<close>

definition sum_axis1 :: "('a::comm_ring_1) ndarray \<Rightarrow> 'a list" where
  "sum_axis1 B = map sum_list (rows B)"

text \<open>\<open>matrixC[:, i] = v\<close>: column \<open>i\<close> of the array is overwritten.\<close>

definition set_column :: "'a ndarray \<Rightarrow> nat \<Rightarrow> 'a list \<Rightarrow> 'a ndarray" where
  "set_column C i v = C\<lparr>rows := map2 (\<lambda>r x. r[i := x]) (rows C) v\<rparr>"

text \<open>\<open>matrixA[:, j]\<close>: column \<open>j\<close>, read through a view.\<close>

definition column :: "'a ndarray \<Rightarrow> nat \<Rightarrow> 'a list" where
  "column A j = map (\<lambda>r. r ! j) (rows A)"

text \<open>\<open>g * a\<close> for an integer \<open>g\<close> and a vector \<open>a\<close>: a new vector.\<close>

definition scale :: "int \<Rightarrow> ('a::comm_ring_1) list \<Rightarrow> 'a list" where
  "scale g a = map (\<lambda>x. of_int g * x) a"

text \<open>\<open>matrixC[:, h] += v\<close>: the vector is added into column \<open>h\<close>.\<close>

definition add_to_column :: "('a::comm_ring_1) ndarray \<Rightarrow> nat \<Rightarrow> 'a list \<Rightarrow> 'a ndarray" where
  "add_to_column C h v = C\<lparr>rows := map2 (\<lambda>r x. r[h := r ! h + x]) (rows C) v\<rparr>"

subsection \<open>The store and the random draws\<close>

type_synonym 'a store = "'a ndarray list"

definition alloc :: "'a store \<Rightarrow> 'a ndarray \<Rightarrow> 'a store \<times> nat" where
  "alloc H a = (H @ [a], length H)"

text \<open>What \<open>np.random.choice(a, n, replace=True)\<close> guarantees of its \<open>n\<close> values.\<close>

definition draws_below :: "nat \<Rightarrow> nat \<Rightarrow> (nat \<Rightarrow> nat) \<Rightarrow> bool" where
  "draws_below a n choice \<longleftrightarrow> list_all (\<lambda>j. choice j < a) [0..<n]"

text \<open>\<open>np.random.choice(2, n, replace=True) * 2 - 1\<close>\<close>

definition signs_of :: "(nat \<Rightarrow> nat) \<Rightarrow> nat \<Rightarrow> int list" where
  "signs_of choice2 n = map (\<lambda>j. int (choice2 j) * 2 - 1) [0..<n]"

subsection \<open>In-memory implementation\<close>

text \<open>
  \<^verbatim>\<open>
  def countSketchInMemroy(matrixA, s):
      m, n = matrixA.shape
      matrixC = np.zeros([m, s])
      hashedIndices = np.random.choice(s, n, replace=True)
      randSigns = np.random.choice(2, n, replace=True) * 2 - 1
      matrixA = matrixA * randSigns.reshape(1, n)
      for i in range(s):
          idx = (hashedIndices == i)
          matrixC[:, i] = np.sum(matrixA[:, idx], 1)
      return matrixC
  \<close>
  The argument \<open>matrixA\<close> is the address of the caller's array. The product with the
  signs is a new array, to which the local name \<open>matrixA\<close> is bound from then on
  (\<open>flipped\<close> below). The function returns the store and the address of \<open>matrixC\<close>.
\<close>

definition inMemory_body ::
  "nat \<Rightarrow> nat \<Rightarrow> nat list \<Rightarrow> nat \<Rightarrow> ('a::comm_ring_1) store \<Rightarrow> 'a store" where
  "inMemory_body matrixC flipped hashedIndices i H =
     (let idx = map (\<lambda>h. h = i) hashedIndices
      in H[matrixC := set_column (H ! matrixC) i (sum_axis1 (take_columns (H ! flipped) idx))])"

definition countSketchInMemroy ::
  "('a::comm_ring_1) store \<Rightarrow> nat \<Rightarrow> nat \<Rightarrow> (nat \<Rightarrow> nat) \<Rightarrow> (nat \<Rightarrow> nat) \<Rightarrow> 'a store \<times> nat" where
  "countSketchInMemroy H matrixA s choice_s choice_2 =
     (let (m, n) = shape (H ! matrixA);
          (H1, matrixC) = alloc H (zeros m s);
          hashedIndices = map choice_s [0..<n];
          randSigns = signs_of choice_2 n;
          (H2, flipped) = alloc H1 (times_row (H1 ! matrixA) randSigns);
          H3 = fold (inMemory_body matrixC flipped hashedIndices) [0..<s] H2
      in (H3, matrixC))"

text \<open>The array a caller receives when the store holds nothing but its matrix.\<close>

definition inMemorySketch ::
  "('a::comm_ring_1) ndarray \<Rightarrow> nat \<Rightarrow> (nat \<Rightarrow> nat) \<Rightarrow> (nat \<Rightarrow> nat) \<Rightarrow> 'a ndarray" where
  "inMemorySketch A s choice_s choice_2 =
     (let (H, matrixC) = countSketchInMemroy [A] 0 s choice_s choice_2 in H ! matrixC)"

subsection \<open>Streaming implementation\<close>

text \<open>
  \<^verbatim>\<open>
  def countSketchStreaming(matrixA, s):
      m, n = matrixA.shape
      matrixC = np.zeros([m, s])
      hashedIndices = np.random.choice(s, n, replace=True)
      randSigns = np.random.choice(2, n, replace=True) * 2 - 1
      for j in range(n):
          a = matrixA[:, j]
          h = hashedIndices[j]
          g = randSigns[j]
          matrixC[:, h] += g * a
      return matrixC
  \<close>
  Every index expression of the loop raises \<open>IndexError\<close> when it is out of range.
\<close>

datatype error = IndexError

fun streaming_loop ::
  "nat \<Rightarrow> nat \<Rightarrow> nat list \<Rightarrow> int list \<Rightarrow> nat list \<Rightarrow> ('a::comm_ring_1) store \<Rightarrow> error + 'a store" where
  "streaming_loop matrixA matrixC hashedIndices randSigns [] H = Inr H"
| "streaming_loop matrixA matrixC hashedIndices randSigns (j # js) H =
     (if \<not> j < ncols (H ! matrixA) then Inl IndexError
      else let a = column (H ! matrixA) j in
      if \<not> j < length hashedIndices then Inl IndexError
      else let h = hashedIndices ! j in
      if \<not> j < length randSigns then Inl IndexError
      else let g = randSigns ! j in
      if \<not> h < ncols (H ! matrixC) then Inl IndexError
      else streaming_loop matrixA matrixC hashedIndices randSigns js
             (H[matrixC := add_to_column (H ! matrixC) h (scale g a)]))"

definition countSketchStreaming ::
  "('a::comm_ring_1) store \<Rightarrow> nat \<Rightarrow> nat \<Rightarrow> (nat \<Rightarrow> nat) \<Rightarrow> (nat \<Rightarrow> nat)
     \<Rightarrow> error + 'a store \<times> nat" where
  "countSketchStreaming H matrixA s choice_s choice_2 =
     (let (m, n) = shape (H ! matrixA);
          (H1, matrixC) = alloc H (zeros m s);
          hashedIndices = map choice_s [0..<n];
          randSigns = signs_of choice_2 n
      in case streaming_loop matrixA matrixC hashedIndices randSigns [0..<n] H1 of
           Inl e \<Rightarrow> Inl e
         | Inr H2 \<Rightarrow> Inr (H2, matrixC))"

definition streamingSketch ::
  "('a::comm_ring_1) ndarray \<Rightarrow> nat \<Rightarrow> (nat \<Rightarrow> nat) \<Rightarrow> (nat \<Rightarrow> nat) \<Rightarrow> error + 'a ndarray" where
  "streamingSketch A s choice_s choice_2 =
     (case countSketchStreaming [A] 0 s choice_s choice_2 of
        Inl e \<Rightarrow> Inl e
      | Inr (H, matrixC) \<Rightarrow> Inr (H ! matrixC))"


subsection \<open>Map-reduce implementation\<close>

text \<open>
  \<^verbatim>\<open>
  def countSketchMapReduce(filepath, s):
      rawRDD = sc.textFile(filepath)
      vectorRDD = rawRDD.map(lambda l: np.asfarray(l.split()))
      pairRDD = vectorRDD.map(lambda vect: (np.random.randint(0, s),
                                            (np.random.randint(0, 2) * 2 - 1) * vect))
      vectList = pairRDD.reduceByKey(lambda v1, v2: v1+v2).map(lambda pair: pair[1]).collect()
      return np.asarray(vectList).T
  \<close>
  An RDD is the list of its partitions, each the list of its records. Reading and
  parsing the file are not modelled: the function starts from \<open>vectorRDD\<close>. Every
  line of the file is one column of \<open>A\<close> (the notebook loads \<open>matrixA\<close> as the
  transpose of the file), and a record carries the number of its line, so that
  the two draws of the mapper for line \<open>j\<close> are \<open>randint_s j\<close> and \<open>randint_2 j\<close>.

  \<open>reduceByKey\<close> first combines the values of equal keys inside every partition.
  It then sends every combined pair to the partition whose number is the hash of the
  key modulo the number of partitions (the hash of a small natural number is the
  number itself, and the number of partitions is that of the RDD unless configured
  otherwise), and merges the pairs of equal keys there, with the same function. It
  emits one pair per key that occurs and none for a key that does not; \<open>collect\<close>
  returns the partitions one after the other. Spark fixes neither the order in which
  a partition receives the pairs nor the order in which a combiner lists its table;
  the model takes the order of the sending partitions and the order of first
  insertion. The theorems below evaluate files of a single partition whose keys are
  drawn in increasing order, where these orders coincide.
\<close>

type_synonym 'a rdd = "'a list list"

definition rdd_map :: "('a \<Rightarrow> 'b) \<Rightarrow> 'a rdd \<Rightarrow> 'b rdd" where
  "rdd_map f R = map (map f) R"

definition collect :: "'a rdd \<Rightarrow> 'a list" where
  "collect R = concat R"

text \<open>\<open>v1 + v2\<close> for two vectors of one length, entry by entry. The lines of the file
  are the columns of a matrix and have one length; for vectors of different lengths,
  where NumPy broadcasts or raises, the definition is not meant.\<close>

definition vadd :: "('a::comm_ring_1) list \<Rightarrow> 'a list \<Rightarrow> 'a list" where
  "vadd v1 v2 = map2 (+) v1 v2"

text \<open>One pair enters the table of a combiner: its value is combined with the
  value the key already has, or the pair is added.\<close>

fun merge_value :: "('v \<Rightarrow> 'v \<Rightarrow> 'v) \<Rightarrow> 'k \<times> 'v \<Rightarrow> ('k \<times> 'v) list \<Rightarrow> ('k \<times> 'v) list" where
  "merge_value f (k, v) [] = [(k, v)]"
| "merge_value f (k, v) ((k', w) # d) =
     (if k' = k then (k', f w v) # d else (k', w) # merge_value f (k, v) d)"

definition combine :: "('v \<Rightarrow> 'v \<Rightarrow> 'v) \<Rightarrow> ('k \<times> 'v) list \<Rightarrow> ('k \<times> 'v) list" where
  "combine f kvs = fold (merge_value f) kvs []"

definition partitionBy :: "nat \<Rightarrow> (nat \<times> 'v) rdd \<Rightarrow> (nat \<times> 'v) rdd" where
  "partitionBy numPartitions R =
     map (\<lambda>p. filter (\<lambda>(k, v). k mod numPartitions = p) (concat R)) [0..<numPartitions]"

definition reduceByKey :: "('v \<Rightarrow> 'v \<Rightarrow> 'v) \<Rightarrow> (nat \<times> 'v) rdd \<Rightarrow> (nat \<times> 'v) rdd" where
  "reduceByKey f R = map (combine f) (partitionBy (length R) (map (combine f) R))"

text \<open>\<open>np.asarray(vectList).T\<close>: the vectors of the list become the columns. For the
  empty list NumPy returns the one-dimensional array without entries; the record
  renders it with no rows and no columns.\<close>

definition asarray_T :: "'a list list \<Rightarrow> 'a ndarray" where
  "asarray_T vectList =
     (case vectList of
        [] \<Rightarrow> \<lparr>nrows = 0, ncols = 0, rows = []\<rparr>
      | v # _ \<Rightarrow> \<lparr>nrows = length v, ncols = length vectList,
                  rows = map (\<lambda>i. map (\<lambda>w. w ! i) vectList) [0..<length v]\<rparr>)"

definition countSketchMapReduce ::
  "(nat \<times> ('a::comm_ring_1) list) rdd \<Rightarrow> nat \<Rightarrow> (nat \<Rightarrow> nat) \<Rightarrow> (nat \<Rightarrow> nat) \<Rightarrow> 'a ndarray" where
  "countSketchMapReduce vectorRDD s randint_s randint_2 =
     (let pairRDD = rdd_map (\<lambda>(j, vect).
            (randint_s j, scale (int (randint_2 j) * 2 - 1) vect)) vectorRDD;
          vectList = collect (rdd_map snd (reduceByKey vadd pairRDD))
      in asarray_T vectList)"

subsection \<open>Reference definitions, following the specification\<close>

text \<open>
  The accumulator after the first \<open>k\<close> columns, as the specification words it: an
  all-zero buffer of \<open>m\<close> rows and \<open>s\<close> columns into which, for every column
  \<open>j < k\<close>, the column \<open>a j\<close> times its sign has been added at column \<open>bucket j\<close>.
\<close>

definition partial_sketch ::
  "('a::comm_ring_1) ndarray \<Rightarrow> nat \<Rightarrow> (nat \<Rightarrow> nat) \<Rightarrow> (nat \<Rightarrow> nat) \<Rightarrow> nat \<Rightarrow> 'a ndarray" where
  "partial_sketch A s bucket coin k =
     \<lparr>nrows = nrows A, ncols = s,
      rows = map (\<lambda>r. map (\<lambda>c. \<Sum>j\<leftarrow>[0..<k].
                 if bucket j = c then of_int (int (coin j) * 2 - 1) * r ! j else 0) [0..<s])
               (rows A)\<rparr>"

text \<open>The entrywise sum of two arrays of one shape: the merge of two accumulators.\<close>

definition madd :: "('a::comm_ring_1) ndarray \<Rightarrow> 'a ndarray \<Rightarrow> 'a ndarray" where
  "madd X Y = \<lparr>nrows = nrows X, ncols = ncols X, rows = map2 (map2 (+)) (rows X) (rows Y)\<rparr>"


section \<open>Verification\<close>

subsection \<open>Sums over index ranges\<close>

lemma sum_list_upt_Suc_shift:
  "(\<Sum>j\<leftarrow>[0..<Suc n]. f j) = f 0 + (\<Sum>j\<leftarrow>[0..<n]. f (Suc j) :: 'a::comm_monoid_add)"
  by (simp add: upt_conv_Cons del: upt_Suc flip: map_Suc_upt add: comp_def)

lemma sum_select:
  "length xs = length bs \<Longrightarrow>
   sum_list (select xs bs) = (\<Sum>j\<leftarrow>[0..<length xs]. if bs ! j then xs ! j else (0::'a::comm_monoid_add))"
proof (induction xs bs rule: list_induct2)
  case Nil
  then show ?case by (simp add: select_def)
next
  case (Cons x xs b bs)
  have "sum_list (select (x # xs) (b # bs)) = (if b then x else 0) + sum_list (select xs bs)"
    by (simp add: select_def)
  also have "\<dots> = (if b then x else 0) + (\<Sum>j\<leftarrow>[0..<length xs]. if bs ! j then xs ! j else 0)"
    using Cons.IH by simp
  also have "\<dots> = (\<Sum>j\<leftarrow>[0..<Suc (length xs)]. if (b # bs) ! j then (x # xs) ! j else 0)"
    by (subst sum_list_upt_Suc_shift) (simp cong: if_cong)
  finally show ?case by simp
qed

lemma sum_list_upt_cong:
  "(\<And>j. j < n \<Longrightarrow> f j = g j) \<Longrightarrow> (\<Sum>j\<leftarrow>[0..<n]. f j) = (\<Sum>j\<leftarrow>[0..<n]. g j)"
  by (rule arg_cong[where f = sum_list]) simp

subsection \<open>Well-formed arrays and their entries\<close>

lemma wf_ndarrayD:
  "wf_ndarray A \<Longrightarrow> length (rows A) = nrows A"
  "wf_ndarray A \<Longrightarrow> i < nrows A \<Longrightarrow> length (rows A ! i) = ncols A"
  by (auto simp: wf_ndarray_def list_all_length)

lemma ndarray_eqI:
  fixes A B :: "'a ndarray"
  assumes "wf_ndarray A" "wf_ndarray B" "nrows A = nrows B" "ncols A = ncols B"
    and "\<And>i j. i < nrows A \<Longrightarrow> j < ncols A \<Longrightarrow> entry A i j = entry B i j"
  shows "A = B"
proof -
  have "rows A = rows B"
  proof (rule nth_equalityI)
    show "length (rows A) = length (rows B)"
      using assms by (simp add: wf_ndarrayD)
  next
    fix i assume "i < length (rows A)"
    then have i: "i < nrows A" using assms(1) by (simp add: wf_ndarrayD)
    show "rows A ! i = rows B ! i"
    proof (rule nth_equalityI)
      show "length (rows A ! i) = length (rows B ! i)"
        using assms i by (simp add: wf_ndarrayD)
    next
      fix j assume "j < length (rows A ! i)"
      then have "j < ncols A" using assms(1) i by (simp add: wf_ndarrayD)
      then show "rows A ! i ! j = rows B ! i ! j"
        using assms(5)[OF i] by (simp add: entry_def)
    qed
  qed
  then show ?thesis using assms(3,4) by simp
qed

lemma wf_zeros [simp]: "wf_ndarray (zeros m s)"
  by (simp add: wf_ndarray_def zeros_def list_all_length)

lemma shape_zeros [simp]: "nrows (zeros m s) = m" "ncols (zeros m s) = s"
  by (simp_all add: zeros_def)

lemma entry_zeros [simp]: "i < m \<Longrightarrow> j < s \<Longrightarrow> entry (zeros m s) i j = 0"
  by (simp add: zeros_def entry_def)

lemma shape_times_row [simp]:
  "nrows (times_row A g) = nrows A" "ncols (times_row A g) = ncols A"
  by (simp_all add: times_row_def)

lemma shape_set_column [simp]:
  "nrows (set_column C i v) = nrows C" "ncols (set_column C i v) = ncols C"
  by (simp_all add: set_column_def)

lemma wf_set_column:
  "wf_ndarray C \<Longrightarrow> length v = nrows C \<Longrightarrow> wf_ndarray (set_column C i v)"
  by (simp add: wf_ndarray_def set_column_def list_all_length)

lemma entry_set_column:
  "wf_ndarray C \<Longrightarrow> length v = nrows C \<Longrightarrow> k < nrows C \<Longrightarrow> c < ncols C \<Longrightarrow>
   entry (set_column C i v) k c = (if c = i then v ! k else entry C k c)"
  by (simp add: wf_ndarray_def set_column_def entry_def list_all_length)

lemma shape_add_to_column [simp]:
  "nrows (add_to_column C i v) = nrows C" "ncols (add_to_column C i v) = ncols C"
  by (simp_all add: add_to_column_def)

lemma wf_add_to_column:
  "wf_ndarray C \<Longrightarrow> length v = nrows C \<Longrightarrow> wf_ndarray (add_to_column C i v)"
  by (simp add: wf_ndarray_def add_to_column_def list_all_length)

lemma entry_add_to_column:
  "wf_ndarray C \<Longrightarrow> length v = nrows C \<Longrightarrow> k < nrows C \<Longrightarrow> c < ncols C \<Longrightarrow>
   entry (add_to_column C h v) k c = (if c = h then entry C k c + v ! k else entry C k c)"
  by (simp add: wf_ndarray_def add_to_column_def entry_def list_all_length)


subsection \<open>What the in-memory implementation computes\<close>

text \<open>
  In exact arithmetic the in-memory sketch has the closed form \<open>partial_sketch\<close>. Below
  the closed form serves for the shape of the sketch and for the buckets that receive
  no column, whose sums are empty.
\<close>

lemma shape_partial_sketch [simp]:
  "nrows (partial_sketch A s cs c2 k) = nrows A" "ncols (partial_sketch A s cs c2 k) = s"
  by (simp_all add: partial_sketch_def)

lemma wf_partial_sketch: "wf_ndarray A \<Longrightarrow> wf_ndarray (partial_sketch A s cs c2 k)"
  by (simp add: wf_ndarray_def partial_sketch_def list_all_length)

lemma entry_partial_sketch:
  "wf_ndarray A \<Longrightarrow> i < nrows A \<Longrightarrow> c < s \<Longrightarrow>
   entry (partial_sketch A s cs c2 k) i c =
     (\<Sum>j\<leftarrow>[0..<k]. if cs j = c then of_int (int (c2 j) * 2 - 1) * entry A i j else 0)"
  by (simp add: wf_ndarray_def partial_sketch_def entry_def cong: if_cong)

lemma fold_inMemory_body:
  "matrixC < length H \<Longrightarrow> flipped < length H \<Longrightarrow> matrixC \<noteq> flipped \<Longrightarrow>
   fold (inMemory_body matrixC flipped hs) is H =
     H[matrixC := fold (\<lambda>i C. set_column C i
          (sum_axis1 (take_columns (H ! flipped) (map (\<lambda>h. h = i) hs)))) is (H ! matrixC)]"
proof (induction "is" arbitrary: H)
  case Nil
  then show ?case by simp
next
  case (Cons i "is")
  then show ?case by (simp add: inMemory_body_def)
qed

lemma fold_set_column:
  fixes C :: "'a ndarray"
  assumes "wf_ndarray C" and "\<And>i. length (v i) = nrows C" and "t \<le> ncols C"
  defines "F \<equiv> fold (\<lambda>i C. set_column C i (v i)) [0..<t] C"
  shows "wf_ndarray F \<and> nrows F = nrows C \<and> ncols F = ncols C \<and>
         (\<forall>k<nrows C. \<forall>c<ncols C. entry F k c = (if c < t then v c ! k else entry C k c))"
  using assms(3) unfolding F_def
proof (induction t)
  case 0
  then show ?case using assms(1) by simp
next
  case (Suc t)
  let ?F = "fold (\<lambda>i C. set_column C i (v i)) [0..<t] C"
  have IH: "wf_ndarray ?F" "nrows ?F = nrows C" "ncols ?F = ncols C"
    "\<And>k c. k < nrows C \<Longrightarrow> c < ncols C \<Longrightarrow> entry ?F k c = (if c < t then v c ! k else entry C k c)"
    using Suc by simp_all
  have step: "fold (\<lambda>i C. set_column C i (v i)) [0..<Suc t] C = set_column ?F t (v t)"
    by simp
  show ?case
    unfolding step
    using IH assms(2) by (auto simp: wf_set_column entry_set_column)
qed

lemma sum_axis1_take_columns:
  "sum_axis1 (take_columns A idx) = map (\<lambda>r. sum_list (select r idx)) (rows A)"
  by (simp add: sum_axis1_def take_columns_def)

lemma length_signs_of [simp]: "length (signs_of c2 n) = n"
  by (simp add: signs_of_def)

lemma nth_signs_of [simp]: "j < n \<Longrightarrow> signs_of c2 n ! j = int (c2 j) * 2 - 1"
  by (simp add: signs_of_def)

lemma bucket_sum:
  assumes "length r = n"
  shows "sum_list (select (map2 (\<lambda>x y. x * of_int y) r (signs_of c2 n)) (map (\<lambda>h. h = c) (map cs [0..<n])))
       = (\<Sum>j\<leftarrow>[0..<n]. if cs j = c then of_int (int (c2 j) * 2 - 1) * r ! j else (0::'a::comm_ring_1))"
proof -
  let ?xs = "map2 (\<lambda>x y. x * of_int y) r (signs_of c2 n)"
  let ?bs = "map (\<lambda>h. h = c) (map cs [0..<n])"
  have len: "length ?xs = n" "length ?bs = n" using assms by simp_all
  have "sum_list (select ?xs ?bs) = (\<Sum>j\<leftarrow>[0..<n]. if ?bs ! j then ?xs ! j else 0)"
    using sum_select[of ?xs ?bs] len by simp
  also have "\<dots> = (\<Sum>j\<leftarrow>[0..<n]. if cs j = c then of_int (int (c2 j) * 2 - 1) * r ! j else 0)"
    by (rule sum_list_upt_cong) (simp add: assms mult.commute)
  finally show ?thesis .
qed

lemma inMemory_store:
  fixes H :: "('a::comm_ring_1) store"
  assumes "matrixA < length H"
  shows "countSketchInMemroy H matrixA s cs c2 =
    ((H @ [zeros (nrows (H ! matrixA)) s, times_row (H ! matrixA) (signs_of c2 (ncols (H ! matrixA)))])
       [length H := fold (\<lambda>i C. set_column C i
          (sum_axis1 (take_columns (times_row (H ! matrixA) (signs_of c2 (ncols (H ! matrixA))))
             (map (\<lambda>h. h = i) (map cs [0..<ncols (H ! matrixA)])))))
          [0..<s] (zeros (nrows (H ! matrixA)) s)],
     length H)"
  using assms
  by (simp add: countSketchInMemroy_def shape_def alloc_def Let_def fold_inMemory_body nth_append)

lemma inMemory_value:
  fixes A :: "('a::comm_ring_1) ndarray"
  assumes "wf_ndarray A"
  shows "fold (\<lambda>i C. set_column C i
          (sum_axis1 (take_columns (times_row A (signs_of c2 (ncols A)))
             (map (\<lambda>h. h = i) (map cs [0..<ncols A])))))
          [0..<s] (zeros (nrows A) s) = partial_sketch A s cs c2 (ncols A)"
    (is "?F = ?P")
proof -
  let ?v = "\<lambda>i. sum_axis1 (take_columns (times_row A (signs_of c2 (ncols A)))
             (map (\<lambda>h. h = i) (map cs [0..<ncols A])))"
  have lenv: "\<And>i. length (?v i) = nrows (zeros (nrows A) s :: 'a ndarray)"
    using assms by (simp add: sum_axis1_take_columns times_row_def wf_ndarrayD)
  have F: "wf_ndarray ?F" "nrows ?F = nrows A" "ncols ?F = s"
      "\<And>k c. k < nrows A \<Longrightarrow> c < s \<Longrightarrow> entry ?F k c = ?v c ! k"
    using fold_set_column[of "zeros (nrows A) s :: 'a ndarray" ?v s, OF wf_zeros lenv] by simp_all
  show ?thesis
  proof (rule ndarray_eqI)
    fix i j assume i: "i < nrows ?F" and j: "j < ncols ?F"
    then have i': "i < nrows A" and j': "j < s" using F by simp_all
    have "entry ?F i j = ?v j ! i" using F(4)[OF i' j'] .
    also have "\<dots> = sum_list (select (map2 (\<lambda>x y. x * of_int y) (rows A ! i) (signs_of c2 (ncols A)))
                        (map (\<lambda>h. h = j) (map cs [0..<ncols A])))"
      using i' assms by (simp add: sum_axis1_take_columns wf_ndarrayD times_row_def)
    also have "\<dots> = (\<Sum>k\<leftarrow>[0..<ncols A]. if cs k = j then of_int (int (c2 k) * 2 - 1) * rows A ! i ! k else 0)"
      by (rule bucket_sum) (simp add: assms i' wf_ndarrayD)
    also have "\<dots> = entry ?P i j"
      using assms i' j' by (simp add: entry_partial_sketch) (simp add: entry_def cong: if_cong)
    finally show "entry ?F i j = entry ?P i j" .
  qed (use F assms in \<open>simp_all add: wf_partial_sketch\<close>)
qed

lemma inMemorySketch_eq:
  fixes A :: "('a::comm_ring_1) ndarray"
  assumes "wf_ndarray A"
  shows "inMemorySketch A s cs c2 = partial_sketch A s cs c2 (ncols A)"
  using inMemory_value[OF assms, of c2 cs s]
  by (simp add: inMemorySketch_def inMemory_store)

lemma inMemory_any_store:
  fixes H :: "('a::comm_ring_1) store"
  assumes "matrixA < length H"
  shows "(let (H', matrixC) = countSketchInMemroy H matrixA s cs c2 in H' ! matrixC)
       = inMemorySketch (H ! matrixA) s cs c2"
  using assms by (simp add: inMemorySketch_def inMemory_store)


subsection \<open>Shape and empty buckets of the in-memory sketch\<close>

lemma sign_cases:
  "b < 2 \<Longrightarrow> int b * 2 - 1 = 1 \<or> int b * 2 - 1 = - 1"
  by (cases b) auto

lemma inMemory_shape:
  fixes A :: "('a::comm_ring_1) ndarray"
  assumes "wf_ndarray A"
  shows "wf_ndarray (inMemorySketch A s bucket coin)"
    and "shape (inMemorySketch A s bucket coin) = (nrows A, s)"
  using assms by (simp_all add: inMemorySketch_eq wf_partial_sketch shape_def)

lemma inMemory_no_columns:
  fixes A :: "('a::comm_ring_1) ndarray"
  assumes "wf_ndarray A" and "ncols A = 0"
  shows "inMemorySketch A s bucket coin = zeros (nrows A) s"
proof -
  have "partial_sketch A s bucket coin 0 = zeros (nrows A) s"
    using assms(1) by (intro ndarray_eqI) (simp_all add: wf_partial_sketch entry_partial_sketch)
  then show ?thesis using assms by (simp add: inMemorySketch_eq)
qed

lemma sum_list_zero: "(\<And>j. j < n \<Longrightarrow> f j = 0) \<Longrightarrow> (\<Sum>j\<leftarrow>[0..<n]. f j) = (0::'a::comm_monoid_add)"
  by (induction n) simp_all

lemma inMemory_zero_column:
  fixes A :: "('a::comm_ring_1) ndarray"
  assumes "wf_ndarray A" and "c < s" and "\<And>j. j < ncols A \<Longrightarrow> bucket j \<noteq> c"
  shows "column (inMemorySketch A s bucket coin) c = replicate (nrows A) 0"
proof (rule nth_equalityI)
  show "length (column (inMemorySketch A s bucket coin) c) = length (replicate (nrows A) (0::'a))"
    using assms(1) by (simp add: column_def inMemorySketch_eq partial_sketch_def wf_ndarrayD)
next
  fix i assume "i < length (column (inMemorySketch A s bucket coin) c)"
  then have i: "i < nrows A"
    using assms(1) by (simp add: column_def inMemorySketch_eq partial_sketch_def wf_ndarrayD)
  have "column (inMemorySketch A s bucket coin) c ! i = entry (partial_sketch A s bucket coin (ncols A)) i c"
    using assms(1) i by (simp add: column_def inMemorySketch_eq entry_def partial_sketch_def wf_ndarrayD)
  also have "\<dots> = 0"
    using assms i by (simp add: entry_partial_sketch sum_list_zero)
  finally show "column (inMemorySketch A s bucket coin) c ! i = replicate (nrows A) 0 ! i"
    using i by simp
qed


subsection \<open>The streaming loop\<close>


lemma length_scale [simp]: "length (scale g a) = length a"
  by (simp add: scale_def)

lemma length_column [simp]: "length (column A j) = length (rows A)"
  by (simp add: column_def)

lemma nth_scale_column:
  "k < length (rows A) \<Longrightarrow> scale g (column A j) ! k = of_int g * entry A k j"
  by (simp add: scale_def column_def entry_def)

lemma streaming_loop_inv:
  fixes H :: "('a::comm_ring_1) store"
  assumes "pA < length H" "pC < length H" "pA \<noteq> pC"
    and "wf_ndarray (H ! pA)" "wf_ndarray (H ! pC)" "nrows (H ! pC) = nrows (H ! pA)"
    and "\<And>j. j \<in> set js \<Longrightarrow>
           j < ncols (H ! pA) \<and> j < length hs \<and> j < length gs \<and> hs ! j < ncols (H ! pC)"
  shows "\<exists>C. streaming_loop pA pC hs gs js H = Inr (H[pC := C])
           \<and> wf_ndarray C \<and> nrows C = nrows (H ! pC) \<and> ncols C = ncols (H ! pC)
           \<and> (\<forall>k<nrows C. \<forall>c<ncols C. entry C k c = entry (H ! pC) k c
                + (\<Sum>j\<leftarrow>js. if hs ! j = c then of_int (gs ! j) * entry (H ! pA) k j else 0))"
  using assms
proof (induction js arbitrary: H)
  case Nil
  have "streaming_loop pA pC hs gs [] H = Inr (H[pC := H ! pC])" by simp
  then show ?case using Nil.prems by (intro exI[of _ "H ! pC"]) simp
next
  case (Cons j js)
  let ?A = "H ! pA" and ?C0 = "H ! pC"
  let ?v = "scale (gs ! j) (column ?A j)"
  let ?C1 = "add_to_column ?C0 (hs ! j) ?v"
  let ?H1 = "H[pC := ?C1]"
  have j: "j < ncols ?A" "j < length hs" "j < length gs" "hs ! j < ncols ?C0"
    using Cons.prems(7)[of j] by simp_all
  have lenv: "length ?v = nrows ?C0"
    using Cons.prems(4,6) by (simp add: wf_ndarrayD)
  have step: "streaming_loop pA pC hs gs (j # js) H = streaming_loop pA pC hs gs js ?H1"
    using j by (simp add: Let_def)
  have H1: "?H1 ! pA = ?A" "?H1 ! pC = ?C1" "pA < length ?H1" "pC < length ?H1"
    using Cons.prems(1,2,3) by simp_all
  have wf1: "wf_ndarray (?H1 ! pC)"
    using Cons.prems(5) lenv by (simp add: H1 wf_add_to_column)
  have "\<exists>C. streaming_loop pA pC hs gs js ?H1 = Inr (?H1[pC := C])
           \<and> wf_ndarray C \<and> nrows C = nrows (?H1 ! pC) \<and> ncols C = ncols (?H1 ! pC)
           \<and> (\<forall>k<nrows C. \<forall>c<ncols C. entry C k c = entry (?H1 ! pC) k c
                + (\<Sum>j\<leftarrow>js. if hs ! j = c then of_int (gs ! j) * entry (?H1 ! pA) k j else 0))"
  proof (rule Cons.IH)
    show "wf_ndarray (?H1 ! pA)" using Cons.prems(4) by (simp add: H1)
    show "nrows (?H1 ! pC) = nrows (?H1 ! pA)" using Cons.prems(6) by (simp add: H1)
    show "\<And>i. i \<in> set js \<Longrightarrow>
           i < ncols (?H1 ! pA) \<and> i < length hs \<and> i < length gs \<and> hs ! i < ncols (?H1 ! pC)"
      using Cons.prems(7) by (simp add: H1)
  qed (use H1 wf1 Cons.prems(3) in simp_all)
  then obtain C where C: "streaming_loop pA pC hs gs js ?H1 = Inr (?H1[pC := C])"
      "wf_ndarray C" "nrows C = nrows ?C0" "ncols C = ncols ?C0"
      "\<And>k c. k < nrows ?C0 \<Longrightarrow> c < ncols ?C0 \<Longrightarrow> entry C k c = entry ?C1 k c
           + (\<Sum>j\<leftarrow>js. if hs ! j = c then of_int (gs ! j) * entry ?A k j else 0)"
    by (auto simp: H1 cong: if_cong)
  have ent: "entry C k c = entry ?C0 k c
       + (\<Sum>i\<leftarrow>j # js. if hs ! i = c then of_int (gs ! i) * entry ?A k i else 0)"
    if "k < nrows ?C0" "c < ncols ?C0" for k c
  proof -
    have "k < length (rows ?A)" using that(1) Cons.prems(4,6) by (simp add: wf_ndarrayD)
    then have "entry ?C1 k c = entry ?C0 k c + (if hs ! j = c then of_int (gs ! j) * entry ?A k j else 0)"
      using that Cons.prems(5) lenv by (auto simp: entry_add_to_column nth_scale_column)
    then show ?thesis using C(5)[OF that] by (simp add: add.assoc)
  qed
  show ?case
    unfolding step
    using C(1-4) ent by (intro exI[of _ C]) simp
qed

lemma streaming_prefix:
  fixes H :: "('a::comm_ring_1) store"
  assumes "pA < length H" and "wf_ndarray (H ! pA)"
    and "draws_below s (ncols (H ! pA)) bucket" and "k \<le> ncols (H ! pA)"
  shows "streaming_loop pA (length H) (map bucket [0..<ncols (H ! pA)]) (signs_of coin (ncols (H ! pA)))
           [0..<k] (H @ [zeros (nrows (H ! pA)) s])
         = Inr (H @ [partial_sketch (H ! pA) s bucket coin k])"
proof -
  let ?A = "H ! pA" and ?n = "ncols (H ! pA)"
  let ?H1 = "H @ [zeros (nrows ?A) s :: 'a ndarray]"
  let ?hs = "map bucket [0..<?n]" and ?gs = "signs_of coin ?n"
  have H1: "?H1 ! pA = ?A" "?H1 ! length H = zeros (nrows ?A) s"
    using assms(1) by (simp_all add: nth_append)
  have "\<exists>C. streaming_loop pA (length H) ?hs ?gs [0..<k] ?H1 = Inr (?H1[length H := C])
           \<and> wf_ndarray C \<and> nrows C = nrows (?H1 ! length H) \<and> ncols C = ncols (?H1 ! length H)
           \<and> (\<forall>i<nrows C. \<forall>c<ncols C. entry C i c = entry (?H1 ! length H) i c
                + (\<Sum>j\<leftarrow>[0..<k]. if ?hs ! j = c then of_int (?gs ! j) * entry (?H1 ! pA) i j else 0))"
  proof (rule streaming_loop_inv)
    show "\<And>j. j \<in> set [0..<k] \<Longrightarrow>
           j < ncols (?H1 ! pA) \<and> j < length ?hs \<and> j < length ?gs \<and> ?hs ! j < ncols (?H1 ! length H)"
      using assms(3,4) by (simp add: H1 draws_below_def list_all_length)
  qed (use assms(1,2) in \<open>simp_all add: H1\<close>)
  then obtain C where C: "streaming_loop pA (length H) ?hs ?gs [0..<k] ?H1 = Inr (?H1[length H := C])"
     "wf_ndarray C" "nrows C = nrows ?A" "ncols C = s"
     "\<And>i c. i < nrows ?A \<Longrightarrow> c < s \<Longrightarrow> entry C i c =
         (\<Sum>j\<leftarrow>[0..<k]. if ?hs ! j = c then of_int (?gs ! j) * entry ?A i j else 0)"
    by (auto simp: H1 cong: if_cong)
  have "C = partial_sketch ?A s bucket coin k"
  proof (rule ndarray_eqI)
    fix i c assume "i < nrows C" "c < ncols C"
    then have i: "i < nrows ?A" and c: "c < s" using C(3,4) by simp_all
    have "entry C i c = (\<Sum>j\<leftarrow>[0..<k]. if ?hs ! j = c then of_int (?gs ! j) * entry ?A i j else 0)"
      using C(5)[OF i c] .
    also have "\<dots> = (\<Sum>j\<leftarrow>[0..<k]. if bucket j = c then of_int (int (coin j) * 2 - 1) * entry ?A i j else 0)"
      using assms(4) by (intro sum_list_upt_cong) simp
    finally show "entry C i c = entry (partial_sketch ?A s bucket coin k) i c"
      using assms(2) i c by (simp add: entry_partial_sketch)
  qed (use C assms(2) in \<open>simp_all add: wf_partial_sketch\<close>)
  then show ?thesis using C(1) by simp
qed

lemma countSketchStreaming_eq:
  fixes H :: "('a::comm_ring_1) store"
  assumes "pA < length H" and "wf_ndarray (H ! pA)"
    and "draws_below s (ncols (H ! pA)) bucket"
  shows "countSketchStreaming H pA s bucket coin
         = Inr (H @ [partial_sketch (H ! pA) s bucket coin (ncols (H ! pA))], length H)"
  using streaming_prefix[OF assms, of "ncols (H ! pA)" coin] assms(1)
  by (simp add: countSketchStreaming_def shape_def alloc_def nth_append)



text \<open>
  Claim C10. In the streaming implementation, for \<open>s > 0\<close> and draws as NumPy returns
  them, every bucket read from \<open>hashedIndices\<close> is below \<open>s\<close> and every sign read from
  \<open>randSigns\<close> is \<open>1\<close> or \<open>- 1\<close>; no index of the loop is out of range, and the function
  returns an array instead of raising \<open>IndexError\<close>.
\<close>

theorem streaming_writes_in_bounds:
  fixes H :: "('a::comm_ring_1) store"
  assumes "pA < length H" and "wf_ndarray (H ! pA)" and "0 < s"
    and "draws_below s (ncols (H ! pA)) bucket"
    and "draws_below 2 (ncols (H ! pA)) coin"
  shows "(\<forall>j<ncols (H ! pA).
            map bucket [0..<ncols (H ! pA)] ! j < s
          \<and> (signs_of coin (ncols (H ! pA)) ! j = 1 \<or> signs_of coin (ncols (H ! pA)) ! j = - 1))
       \<and> (\<exists>H' matrixC. countSketchStreaming H pA s bucket coin = Inr (H', matrixC))"
proof (intro conjI allI impI)
  fix j assume j: "j < ncols (H ! pA)"
  show "map bucket [0..<ncols (H ! pA)] ! j < s"
    using assms(4) j by (simp add: draws_below_def list_all_length)
  have "coin j < 2"
    using assms(5) j by (simp add: draws_below_def list_all_length)
  then show "signs_of coin (ncols (H ! pA)) ! j = 1 \<or> signs_of coin (ncols (H ! pA)) ! j = - 1"
    using j sign_cases[of "coin j"] by simp
next
  show "\<exists>H' matrixC. countSketchStreaming H pA s bucket coin = Inr (H', matrixC)"
    using countSketchStreaming_eq[OF assms(1,2,4), of coin] by blast
qed

theorem streaming_writes_in_bounds_witness:
  "(0::nat) < length [\<lparr>nrows = 2, ncols = 3, rows = [[1, 2, 3], [4, 5, 6 :: int]]\<rparr>]
   \<and> wf_ndarray ([\<lparr>nrows = 2, ncols = 3, rows = [[1, 2, 3], [4, 5, 6 :: int]]\<rparr>] ! 0)
   \<and> (0::nat) < 2
   \<and> draws_below 2 (ncols ([\<lparr>nrows = 2, ncols = 3, rows = [[1, 2, 3], [4, 5, 6 :: int]]\<rparr>] ! 0))
        (\<lambda>j. [1, 0, 1] ! j)
   \<and> draws_below 2 (ncols ([\<lparr>nrows = 2, ncols = 3, rows = [[1, 2, 3], [4, 5, 6 :: int]]\<rparr>] ! 0))
        (\<lambda>j. [1, 1, 0] ! j)
   \<and> (\<exists>H' matrixC.
         countSketchStreaming [\<lparr>nrows = 2, ncols = 3, rows = [[1, 2, 3], [4, 5, 6 :: int]]\<rparr>] 0 2
           (\<lambda>j. [1, 0, 1] ! j) (\<lambda>j. [1, 1, 0] ! j) = Inr (H', matrixC))"
proof -
  let ?A = "\<lparr>nrows = 2, ncols = 3, rows = [[1, 2, 3], [4, 5, 6 :: int]]\<rparr>"
  have h1: "(0::nat) < length [?A]" by simp
  have h2: "wf_ndarray ([?A] ! 0)" by (simp add: wf_ndarray_def)
  have h3: "(0::nat) < 2" by simp
  have h4: "draws_below 2 (ncols ([?A] ! 0)) (\<lambda>j. [1, 0, 1] ! j)"
    by (simp add: draws_below_def upt_rec)
  have h5: "draws_below 2 (ncols ([?A] ! 0)) (\<lambda>j. [1, 1, 0] ! j)"
    by (simp add: draws_below_def upt_rec)
  show ?thesis
    using streaming_writes_in_bounds[OF h1 h2 h3 h4 h5] h1 h2 h3 h4 h5 by blast
qed

text \<open>
  Claim C8. A call of the in-memory or of the streaming implementation leaves the
  caller's matrix as it was: in the store after the call, the array at the caller's
  address, and every other array that existed before the call, is unchanged. The
  product with the signs and the accumulator are new arrays.
\<close>

theorem caller_matrix_unchanged:
  fixes H :: "('a::comm_ring_1) store"
  assumes "pA < length H" and "wf_ndarray (H ! pA)" and "0 < s"
    and "draws_below s (ncols (H ! pA)) bucket"
  shows "(\<exists>H' matrixC. countSketchInMemroy H pA s bucket coin = (H', matrixC)
            \<and> H' ! pA = H ! pA \<and> take (length H) H' = H \<and> matrixC \<noteq> pA)
       \<and> (\<exists>H' matrixC. countSketchStreaming H pA s bucket coin = Inr (H', matrixC)
            \<and> H' ! pA = H ! pA \<and> take (length H) H' = H \<and> matrixC \<noteq> pA)"
proof
  show "\<exists>H' matrixC. countSketchInMemroy H pA s bucket coin = (H', matrixC)
            \<and> H' ! pA = H ! pA \<and> take (length H) H' = H \<and> matrixC \<noteq> pA"
    using assms(1) by (simp add: inMemory_store nth_append)
next
  show "\<exists>H' matrixC. countSketchStreaming H pA s bucket coin = Inr (H', matrixC)
            \<and> H' ! pA = H ! pA \<and> take (length H) H' = H \<and> matrixC \<noteq> pA"
    using assms(1) countSketchStreaming_eq[OF assms(1,2,4), of coin] by (simp add: nth_append)
qed

theorem caller_matrix_unchanged_witness:
  "(0::nat) < length [\<lparr>nrows = 2, ncols = 3, rows = [[1, 2, 3], [4, 5, 6 :: int]]\<rparr>]
   \<and> wf_ndarray ([\<lparr>nrows = 2, ncols = 3, rows = [[1, 2, 3], [4, 5, 6 :: int]]\<rparr>] ! 0)
   \<and> (0::nat) < 2
   \<and> draws_below 2 (ncols ([\<lparr>nrows = 2, ncols = 3, rows = [[1, 2, 3], [4, 5, 6 :: int]]\<rparr>] ! 0))
        (\<lambda>j. [1, 0, 1] ! j)
   \<and> (\<exists>H' matrixC.
         countSketchInMemroy [\<lparr>nrows = 2, ncols = 3, rows = [[1, 2, 3], [4, 5, 6 :: int]]\<rparr>] 0 2
           (\<lambda>j. [1, 0, 1] ! j) (\<lambda>j. [1, 1, 0] ! j) = (H', matrixC)
         \<and> H' ! 0 = \<lparr>nrows = 2, ncols = 3, rows = [[1, 2, 3], [4, 5, 6]]\<rparr>)
   \<and> (\<exists>H' matrixC.
         countSketchStreaming [\<lparr>nrows = 2, ncols = 3, rows = [[1, 2, 3], [4, 5, 6 :: int]]\<rparr>] 0 2
           (\<lambda>j. [1, 0, 1] ! j) (\<lambda>j. [1, 1, 0] ! j) = Inr (H', matrixC)
         \<and> H' ! 0 = \<lparr>nrows = 2, ncols = 3, rows = [[1, 2, 3], [4, 5, 6]]\<rparr>)"
proof -
  let ?A = "\<lparr>nrows = 2, ncols = 3, rows = [[1, 2, 3], [4, 5, 6 :: int]]\<rparr>"
  have h1: "(0::nat) < length [?A]" by simp
  have h2: "wf_ndarray ([?A] ! 0)" by (simp add: wf_ndarray_def)
  have h3: "(0::nat) < 2" by simp
  have h4: "draws_below 2 (ncols ([?A] ! 0)) (\<lambda>j. [1, 0, 1] ! j)"
    by (simp add: draws_below_def upt_rec)
  have "[?A] ! 0 = ?A" by simp
  then show ?thesis
    using caller_matrix_unchanged[OF h1 h2 h3 h4, of "\<lambda>j. [1, 1, 0] ! j"] h1 h2 h3 h4
    by metis
qed


subsection \<open>The map-reduce implementation drops the buckets that receive no column\<close>

text \<open>
  The in-memory implementation returns an array of \<open>m\<close> rows and \<open>s\<close> columns on every
  input, all zero when \<open>A\<close> has no column, with a zero column for every bucket that no
  column is assigned to (\<open>inMemory_shape\<close>, \<open>inMemory_no_columns\<close>,
  \<open>inMemory_zero_column\<close>). The map-reduce implementation returns one column per pair
  that \<open>reduceByKey\<close> emits; a bucket that was not drawn has no column. The first three
  theorems below evaluate the implementations on the file with the single line \<open>5 7\<close>,
  that is the matrix of two rows and one column, with \<open>s = 3\<close>, the bucket \<open>1\<close> and the
  sign \<open>+1\<close> drawn for the line. The numbers are small integers, on which the
  arithmetic of the notebook is exact.
\<close>

text \<open>
  Claim C2. The three implementations are to return the same matrix under the same
  draws. On this input the in-memory and the streaming implementation return the
  matrix of two rows and three columns with the column \<open>5, 7\<close> in the middle; the
  map-reduce implementation returns the matrix of two rows and one column.
\<close>

theorem mapReduce_differs_from_inMemory:
  "inMemorySketch \<lparr>nrows = 2, ncols = 1, rows = [[5], [7 :: int]]\<rparr> 3 (\<lambda>j. 1) (\<lambda>j. 1)
     = \<lparr>nrows = 2, ncols = 3, rows = [[0, 5, 0], [0, 7, 0]]\<rparr>
   \<and> streamingSketch \<lparr>nrows = 2, ncols = 1, rows = [[5], [7 :: int]]\<rparr> 3 (\<lambda>j. 1) (\<lambda>j. 1)
     = Inr \<lparr>nrows = 2, ncols = 3, rows = [[0, 5, 0], [0, 7, 0]]\<rparr>
   \<and> countSketchMapReduce [[(0, [5, 7 :: int])]] 3 (\<lambda>j. 1) (\<lambda>j. 1)
     = \<lparr>nrows = 2, ncols = 1, rows = [[5], [7]]\<rparr>"
proof (intro conjI)
  show "inMemorySketch \<lparr>nrows = 2, ncols = 1, rows = [[5], [7 :: int]]\<rparr> 3 (\<lambda>j. 1) (\<lambda>j. 1)
     = \<lparr>nrows = 2, ncols = 3, rows = [[0, 5, 0], [0, 7, 0]]\<rparr>"
    by code_simp
  show "streamingSketch \<lparr>nrows = 2, ncols = 1, rows = [[5], [7 :: int]]\<rparr> 3 (\<lambda>j. 1) (\<lambda>j. 1)
     = Inr \<lparr>nrows = 2, ncols = 3, rows = [[0, 5, 0], [0, 7, 0]]\<rparr>"
    by code_simp
  show "countSketchMapReduce [[(0, [5, 7 :: int])]] 3 (\<lambda>j. 1) (\<lambda>j. 1)
     = \<lparr>nrows = 2, ncols = 1, rows = [[5], [7]]\<rparr>"
    by code_simp
qed

text \<open>
  Claim C3. The sketch is to have \<open>m\<close> rows and \<open>s\<close> columns whatever \<open>n\<close> is. On this
  input (\<open>s = 3 > n = 1\<close>) the map-reduce implementation returns an array with one
  column; on the file without lines it returns the array without entries.
\<close>

theorem mapReduce_shape_not_m_by_s:
  "shape (countSketchMapReduce [[(0, [5, 7 :: int])]] 3 (\<lambda>j. 1) (\<lambda>j. 1)) = (2, 1)
   \<and> shape (inMemorySketch \<lparr>nrows = 2, ncols = 1, rows = [[5], [7 :: int]]\<rparr> 3 (\<lambda>j. 1) (\<lambda>j. 1)) = (2, 3)
   \<and> countSketchMapReduce ([[]] :: (nat \<times> int list) rdd) 3 (\<lambda>j. 1) (\<lambda>j. 1)
       = \<lparr>nrows = 0, ncols = 0, rows = []\<rparr>"
proof (intro conjI)
  show "shape (countSketchMapReduce [[(0, [5, 7 :: int])]] 3 (\<lambda>j. 1) (\<lambda>j. 1)) = (2, 1)"
    by code_simp
  show "shape (inMemorySketch \<lparr>nrows = 2, ncols = 1, rows = [[5], [7 :: int]]\<rparr> 3 (\<lambda>j. 1) (\<lambda>j. 1)) = (2, 3)"
    by code_simp
  show "countSketchMapReduce ([[]] :: (nat \<times> int list) rdd) 3 (\<lambda>j. 1) (\<lambda>j. 1)
       = \<lparr>nrows = 0, ncols = 0, rows = []\<rparr>"
    by code_simp
qed

text \<open>
  Claim C4. An output column whose bucket receives no input column is to be the zero
  vector. On this input no column is assigned to bucket \<open>0\<close>; column \<open>0\<close> of the
  in-memory sketch is zero, but the map-reduce implementation returns a single
  column, and its column \<open>0\<close> is \<open>5, 7\<close>.
\<close>

theorem mapReduce_empty_bucket_not_zero:
  "column (countSketchMapReduce [[(0, [5, 7 :: int])]] 3 (\<lambda>j. 1) (\<lambda>j. 1)) 0 = [5, 7]
   \<and> ncols (countSketchMapReduce [[(0, [5, 7 :: int])]] 3 (\<lambda>j. 1) (\<lambda>j. 1)) = 1
   \<and> column (inMemorySketch \<lparr>nrows = 2, ncols = 1, rows = [[5], [7 :: int]]\<rparr> 3 (\<lambda>j. 1) (\<lambda>j. 1)) 0
       = [0, 0]"
proof (intro conjI)
  show "column (countSketchMapReduce [[(0, [5, 7 :: int])]] 3 (\<lambda>j. 1) (\<lambda>j. 1)) 0 = [5, 7]"
    by code_simp
  show "ncols (countSketchMapReduce [[(0, [5, 7 :: int])]] 3 (\<lambda>j. 1) (\<lambda>j. 1)) = 1"
    by code_simp
  show "column (inMemorySketch \<lparr>nrows = 2, ncols = 1, rows = [[5], [7 :: int]]\<rparr> 3 (\<lambda>j. 1) (\<lambda>j. 1)) 0
       = [0, 0]"
    by code_simp
qed

text \<open>
  Claim C7. Sketching all columns is to give the entrywise sum of the sketches of two
  sets of columns sketched separately, every column keeping the draws of its logical
  index. On the file with the lines \<open>1 3\<close> and \<open>2 4\<close>, with \<open>s = 2\<close>, bucket \<open>0\<close> drawn for
  the first line, bucket \<open>1\<close> for the second and the sign \<open>+1\<close> for both, the map-reduce
  implementation returns two columns for the whole file and one column for each line
  alone, so the entrywise sum of the two parts has one column, \<open>3, 7\<close>, and is not the
  sketch of the whole. The in-memory sketches of the two parts have a zero column for
  the empty bucket, and their entrywise sum is the in-memory sketch of the whole.
\<close>

theorem mapReduce_not_additive:
  "countSketchMapReduce [[(0, [1, 3]), (1, [2, 4 :: int])]] 2 (\<lambda>j. j) (\<lambda>j. 1)
     = \<lparr>nrows = 2, ncols = 2, rows = [[1, 2], [3, 4]]\<rparr>
   \<and> madd (countSketchMapReduce [[(0, [1, 3 :: int])]] 2 (\<lambda>j. j) (\<lambda>j. 1))
           (countSketchMapReduce [[(1, [2, 4 :: int])]] 2 (\<lambda>j. j) (\<lambda>j. 1))
     = \<lparr>nrows = 2, ncols = 1, rows = [[3], [7]]\<rparr>
   \<and> countSketchMapReduce [[(0, [1, 3]), (1, [2, 4 :: int])]] 2 (\<lambda>j. j) (\<lambda>j. 1)
     \<noteq> madd (countSketchMapReduce [[(0, [1, 3 :: int])]] 2 (\<lambda>j. j) (\<lambda>j. 1))
             (countSketchMapReduce [[(1, [2, 4 :: int])]] 2 (\<lambda>j. j) (\<lambda>j. 1))
   \<and> inMemorySketch \<lparr>nrows = 2, ncols = 2, rows = [[1, 2], [3, 4 :: int]]\<rparr> 2 (\<lambda>j. j) (\<lambda>j. 1)
     = madd (inMemorySketch \<lparr>nrows = 2, ncols = 1, rows = [[1], [3 :: int]]\<rparr> 2 (\<lambda>k. 0) (\<lambda>k. 1))
            (inMemorySketch \<lparr>nrows = 2, ncols = 1, rows = [[2], [4 :: int]]\<rparr> 2 (\<lambda>k. 1) (\<lambda>k. 1))"
proof (intro conjI)
  show whole: "countSketchMapReduce [[(0, [1, 3]), (1, [2, 4 :: int])]] 2 (\<lambda>j. j) (\<lambda>j. 1)
     = \<lparr>nrows = 2, ncols = 2, rows = [[1, 2], [3, 4]]\<rparr>"
    by code_simp
  show parts: "madd (countSketchMapReduce [[(0, [1, 3 :: int])]] 2 (\<lambda>j. j) (\<lambda>j. 1))
           (countSketchMapReduce [[(1, [2, 4 :: int])]] 2 (\<lambda>j. j) (\<lambda>j. 1))
     = \<lparr>nrows = 2, ncols = 1, rows = [[3], [7]]\<rparr>"
    by code_simp
  show "countSketchMapReduce [[(0, [1, 3]), (1, [2, 4 :: int])]] 2 (\<lambda>j. j) (\<lambda>j. 1)
     \<noteq> madd (countSketchMapReduce [[(0, [1, 3 :: int])]] 2 (\<lambda>j. j) (\<lambda>j. 1))
             (countSketchMapReduce [[(1, [2, 4 :: int])]] 2 (\<lambda>j. j) (\<lambda>j. 1))"
    unfolding whole parts by simp
  show "inMemorySketch \<lparr>nrows = 2, ncols = 2, rows = [[1, 2], [3, 4 :: int]]\<rparr> 2 (\<lambda>j. j) (\<lambda>j. 1)
     = madd (inMemorySketch \<lparr>nrows = 2, ncols = 1, rows = [[1], [3 :: int]]\<rparr> 2 (\<lambda>k. 0) (\<lambda>k. 1))
            (inMemorySketch \<lparr>nrows = 2, ncols = 1, rows = [[2], [4 :: int]]\<rparr> 2 (\<lambda>k. 1) (\<lambda>k. 1))"
    by code_simp
qed

end
